theory Spec2Isabelle
  imports Main "HOL-Library.Word"
begin

section \<open>The request facade of spife: a shallow embedding\<close>

text \<open>
  The module under verification wraps one incoming HTTP request in a \<open>KnorkRequest\<close>
  whose private state is an \<open>Impl\<close>. This theory embeds the accessors \<open>raw\<close>, \<open>pipe\<close>,
  \<open>id\<close>, \<open>body\<close>, \<open>urlObject\<close>, \<open>query\<close> and \<open>accept\<close> of the facade, the constructor and the
  methods of \<open>Impl\<close> behind them, the correlation-id helpers \<open>hashIncoming\<close> and
  \<open>generateID\<close>, and the body collector \<open>getBody\<close> with its \<open>write\<close> and \<open>end\<close> handlers.
  The accessors that only read a property of the incoming message (\<open>headers\<close>, \<open>url\<close>,
  \<open>method\<close> and the like), \<open>metric\<close> and \<open>getRanges\<close> are left out.

  JavaScript values are modelled as follows: \<open>null\<close> and \<open>undefined\<close> are \<open>None\<close>, a
  \<open>Buffer\<close> is a list of bytes, a string is a \<open>string\<close>, an \<open>Error\<close> is its message and its
  optional \<open>statusCode\<close> property, a thrown exception is the \<open>Inl\<close> of a sum.
\<close>

subsection \<open>Values\<close>

type_synonym byte = "8 word"
type_synonym buffer = "byte list"

datatype js_error = JsError (message: string) (statusCode: "nat option")

datatype exn = TypeError

datatype 'v promise_state = Pending | Resolved 'v | Rejected js_error

text \<open>A promise settles once: \<open>resolve\<close> and \<open>reject\<close> on a settled promise change nothing.\<close>

definition resolve :: "'v \<Rightarrow> 'v promise_state \<Rightarrow> 'v promise_state" where
  "resolve v p = (case p of Pending \<Rightarrow> Resolved v | Resolved w \<Rightarrow> Resolved w | Rejected e \<Rightarrow> Rejected e)"

definition reject :: "js_error \<Rightarrow> 'v promise_state \<Rightarrow> 'v promise_state" where
  "reject e p = (case p of Pending \<Rightarrow> Rejected e | Resolved w \<Rightarrow> Resolved w | Rejected d \<Rightarrow> Rejected d)"

text \<open>\<open>Object.assign(err, {statusCode: n})\<close>: the message stays, the status code is set.\<close>

definition assign_statusCode :: "nat \<Rightarrow> js_error \<Rightarrow> js_error" where
  "assign_statusCode n e = JsError (message e) (Some n)"

text \<open>
  \<open>a < b\<close> on a number and a property that may be \<open>undefined\<close>: \<open>undefined\<close> converts to
  \<open>NaN\<close>, and every comparison with \<open>NaN\<close> is false.
\<close>

definition js_lt :: "nat \<Rightarrow> nat option \<Rightarrow> bool" where
  "js_lt a b = (case b of None \<Rightarrow> False | Some n \<Rightarrow> a < n)"

subsection \<open>Strings: \<open>toLowerCase\<close> and \<open>Buffer.toString('base64')\<close>\<close>

text \<open>\<open>toLowerCase\<close> maps each of \<open>A\<close> to \<open>Z\<close> to its lower-case letter; strings are ASCII.\<close>

definition lower_char :: "char \<Rightarrow> char" where
  "lower_char c =
     (case map_of (zip ''ABCDEFGHIJKLMNOPQRSTUVWXYZ'' ''abcdefghijklmnopqrstuvwxyz'') c of
        None \<Rightarrow> c
      | Some d \<Rightarrow> d)"

definition toLowerCase :: "string \<Rightarrow> string" where
  "toLowerCase s = map lower_char s"

definition b64_alphabet :: string where
  "b64_alphabet = ''ABCDEFGHIJKLMNOPQRSTUVWXYZabcdefghijklmnopqrstuvwxyz0123456789+/''"

definition b64_char :: "nat \<Rightarrow> char" where
  "b64_char n = b64_alphabet ! (n mod 64)"

text \<open>Base64 with padding (RFC 4648), three bytes to four characters.\<close>

fun base64 :: "buffer \<Rightarrow> string" where
  "base64 [] = []"
| "base64 [a] =
     [b64_char (unat a div 4), b64_char (unat a mod 4 * 16), CHR ''='', CHR ''='']"
| "base64 [a, b] =
     [b64_char (unat a div 4), b64_char (unat a mod 4 * 16 + unat b div 16),
      b64_char (unat b mod 16 * 4), CHR ''='']"
| "base64 (a # b # c # rest) =
     [b64_char (unat a div 4), b64_char (unat a mod 4 * 16 + unat b div 16),
      b64_char (unat b mod 16 * 4 + unat c div 64), b64_char (unat c mod 64)] @ base64 rest"

subsection \<open>The libraries the module calls\<close>

text \<open>
  \<open>crypto\<close>, \<open>uuid\<close>, \<open>JSON\<close>, \<open>url\<close> and \<open>accepts\<close> are not part of the repository. They are
  parameters of the model:
  \<^item> \<open>sha1 s\<close> is \<open>crypto.createHash('sha1').update(s).digest()\<close>;
  \<open>update\<close> takes a string or a buffer and throws a \<open>TypeError\<close> on \<open>undefined\<close>;
  \<^item> \<open>uuid_v4 n i\<close> is byte \<open>i\<close> of what the \<open>n\<close>-th call of \<open>uuid.v4\<close> in this process
  writes into its 16-byte buffer;
  \<^item> \<open>JSON_parse b\<close> is \<open>JSON.parse(b.toString('utf8'))\<close>, with \<open>Inl\<close> the error it throws;
  \<^item> \<open>url_parse n s\<close> is the object the \<open>n\<close>-th call \<open>url.parse(s, true)\<close> of this request
  returns, \<open>query_of\<close> its \<open>query\<close> property;
  \<^item> \<open>accepts n h\<close> is the object the \<open>n\<close>-th call of \<open>accepts\<close> returns on a request with
  headers \<open>h\<close>.
\<close>

record ('v, 'u, 'q, 'a) lib =
  sha1 :: "string \<Rightarrow> buffer"
  uuid_v4 :: "nat \<Rightarrow> nat \<Rightarrow> byte"
  JSON_parse :: "buffer \<Rightarrow> js_error + 'v"
  url_parse :: "nat \<Rightarrow> string \<Rightarrow> 'u"
  query_of :: "'u \<Rightarrow> 'q"
  accepts :: "nat \<Rightarrow> (string \<rightharpoonup> string) \<Rightarrow> 'a"

subsection \<open>The incoming message and the server\<close>

text \<open>
  \<open>headers\<close> is the header object of the incoming message, whose keys the HTTP parser has
  lowercased; only its own properties are modelled. \<open>opts_maxBodySize\<close> is the ceiling the
  server is configured with; no code of the module reads it.
\<close>

record incoming =
  headers :: "string \<rightharpoonup> string"
  url :: string

record server =
  isExternal :: bool
  requestIDHeaders :: "string list option"
  opts_maxBodySize :: nat

subsection \<open>The state of one request\<close>

text \<open>
  \<open>impl.body\<close> holds what \<open>this._getBody()\<close> returned: the inner function \<open>getBody\<close> of a
  call \<open>getBody(impl, req)\<close>, or the promise of \<open>getDisabledBody(reason)\<close>. Calling the
  function gives the promise of its closure.
\<close>

datatype js_ref = FunctionGetBody | PromiseOfGetBody | PromiseOfGetDisabledBody

text \<open>\<open>impl._getBody\<close> is one of two arrow functions.\<close>

datatype thunk = CallGetBody | CallGetDisabledBody js_error

text \<open>A call of \<open>req.pipe\<close>: with the \<open>Writable\<close> of \<open>collectBody\<close>, or with an argument list.\<close>

datatype 'd pipe_call = PipeToSink | PipeApply "'d list"

text \<open>What the collector does to the promise of its closure and to the source, in order.\<close>

datatype 'v event = Unpipe | CallReject js_error | CallResolve 'v

text \<open>
  The state of a request is the incoming message, the fields of its \<open>Impl\<close>, the variables
  of the closure \<open>getBody(impl, req)\<close> (\<open>promise\<close>, \<open>triggered\<close>), the variables of
  \<open>collectBody\<close> and its \<open>Writable\<close> (\<open>bytesWritten\<close>, \<open>acc\<close>, and \<open>write_installed\<close>, which
  is false once \<open>this._write\<close> has been replaced by \<open>() => {}\<close>), and the promise of
  \<open>getDisabledBody\<close> with the callbacks it has passed to \<open>setImmediate\<close>.
  \<open>impl.body\<close> is assigned once (lemma \<open>allocations_le_1\<close> below), so a request creates
  at most one closure and at most one promise of either kind, and one slot for each is
  enough. \<open>maxBodySize\<close> is the property \<open>impl.maxBodySize\<close> that the \<open>write\<close> handler
  reads. The counters and \<open>events\<close> record calls; no function of the module reads them.
\<close>

record ('v, 'u, 'a, 'd) request_state =
  req :: incoming
  req_pipe_calls :: "'d pipe_call list"
  req_piped :: bool
  req_ended :: bool
  impl_id :: "string option"
  impl_url :: "'u option"
  impl_accept :: "'a option"
  impl_body :: "js_ref option"
  maxBodySize :: "nat option"
  impl_getBody :: thunk
  promise :: "'v promise_state"
  triggered :: bool
  bytesWritten :: nat
  acc :: "buffer list"
  write_installed :: bool
  disabled_promise :: "'v promise_state"
  immediates :: "js_error list"
  uuid_calls :: nat
  url_parse_calls :: nat
  accepts_calls :: nat
  getBody_calls :: nat
  getDisabledBody_calls :: nat
  writes_delivered :: nat
  events :: "'v event list"

subsection \<open>Correlation id\<close>

text \<open>\<open>uuid.v4(null, ID_SCRATCH_BUFFER)\<close> fills the 16 bytes of the scratch buffer.\<close>

definition ID_SCRATCH_BUFFER :: "('v, 'u, 'q, 'a) lib \<Rightarrow> nat \<Rightarrow> buffer" where
  "ID_SCRATCH_BUFFER L n = map (uuid_v4 L n) [0..<16]"

definition generateID :: "('v, 'u, 'q, 'a) lib \<Rightarrow> nat \<Rightarrow> string \<times> nat" where
  "generateID L n = (base64 (ID_SCRATCH_BUFFER L n), Suc n)"

text \<open>The \<open>for\<close> loop of \<open>hashIncoming\<close>: the value of \<open>i\<close> when the loop is left.\<close>

function hashIncoming_loop :: "(string \<rightharpoonup> string) \<Rightarrow> string list \<Rightarrow> nat \<Rightarrow> nat" where
  "hashIncoming_loop hs search i =
     (if i < length search
      then (if hs (toLowerCase (search ! i)) \<noteq> None then i
            else hashIncoming_loop hs search (Suc i))
      else i)"
  by pat_completeness auto
termination
  by (relation "measure (\<lambda>(hs, search, i). length search - i)") auto

declare hashIncoming_loop.simps [simp del]

definition hashIncoming ::
  "('v, 'u, 'q, 'a) lib \<Rightarrow> (string \<rightharpoonup> string) \<Rightarrow> string list \<Rightarrow> nat \<Rightarrow> exn + (string option \<times> nat)"
where
  "hashIncoming L hs search n =
     (let i = hashIncoming_loop hs search 0 in
      if i = length search then Inr (None, n)
      else (case hs (search ! i) of
              None \<Rightarrow> Inl TypeError
            | Some v \<Rightarrow>
                (let hash = base64 (sha1 L v); (g, n') = generateID L n
                 in Inr (Some (hash @ ''-'' @ g), n'))))"

text \<open>\<open>x || null\<close> on a header value: \<open>undefined\<close> and the empty string are falsy.\<close>

definition or_null :: "string option \<Rightarrow> string option" where
  "or_null x = (case x of None \<Rightarrow> None | Some s \<Rightarrow> (if s = [] then None else Some s))"

text \<open>\<open>server.opts.requestIDHeaders || ['request-id']\<close>: every array is truthy.\<close>

definition search_list :: "server \<Rightarrow> string list" where
  "search_list srv = (case requestIDHeaders srv of None \<Rightarrow> [''request-id''] | Some l \<Rightarrow> l)"

text \<open>
  The constructor of \<open>Impl\<close>; \<open>n\<close> is the number of calls of \<open>uuid.v4\<close> the process has made
  so far. It assigns \<open>kreq\<close>, \<open>id\<close>, \<open>url\<close>, \<open>accept\<close>, \<open>body\<close>, \<open>metrics\<close> and \<open>_getBody\<close>, and
  no \<open>maxBodySize\<close>: reading that property gives \<open>undefined\<close>. \<open>new_Impl r i n\<close> is the
  state of a request whose \<open>Impl\<close> has just been constructed with \<open>id = i\<close>.
\<close>

definition new_Impl :: "incoming \<Rightarrow> string option \<Rightarrow> nat \<Rightarrow> ('v, 'u, 'a, 'd) request_state" where
  "new_Impl r i n =
     \<lparr> req = r, req_pipe_calls = [], req_piped = False, req_ended = False,
       impl_id = i, impl_url = None, impl_accept = None, impl_body = None,
       maxBodySize = None, impl_getBody = CallGetBody,
       promise = Pending, triggered = False, bytesWritten = 0, acc = [],
       write_installed = False, disabled_promise = Pending, immediates = [],
       uuid_calls = n, url_parse_calls = 0, accepts_calls = 0,
       getBody_calls = 0, getDisabledBody_calls = 0, writes_delivered = 0,
       events = [] \<rparr>"

definition Impl_constructor ::
  "('v, 'u, 'q, 'a) lib \<Rightarrow> server \<Rightarrow> incoming \<Rightarrow> nat \<Rightarrow> exn + ('v, 'u, 'a, 'd) request_state"
where
  "Impl_constructor L srv r n =
     (case (if isExternal srv then hashIncoming L (headers r) (search_list srv) n
            else Inr (or_null (headers r ''request-id''), n)) of
        Inl e \<Rightarrow> Inl e
      | Inr (i, n') \<Rightarrow> Inr (new_Impl r i n'))"

text \<open>\<open>if (this.id)\<close>: \<open>null\<close> and the empty string are falsy.\<close>

definition getID ::
  "('v, 'u, 'q, 'a) lib \<Rightarrow> ('v, 'u, 'a, 'd) request_state \<Rightarrow> string \<times> ('v, 'u, 'a, 'd) request_state"
where
  "getID L st =
     (case or_null (impl_id st) of
        Some s \<Rightarrow> (s, st)
      | None \<Rightarrow>
          (let g = base64 (ID_SCRATCH_BUFFER L (uuid_calls st))
           in (g, st\<lparr>impl_id := Some g, uuid_calls := Suc (uuid_calls st)\<rparr>)))"

subsection \<open>Parsed URL and negotiation\<close>

definition getURL ::
  "('v, 'u, 'q, 'a) lib \<Rightarrow> ('v, 'u, 'a, 'd) request_state \<Rightarrow> 'u \<times> ('v, 'u, 'a, 'd) request_state"
where
  "getURL L st =
     (case impl_url st of
        Some u \<Rightarrow> (u, st)
      | None \<Rightarrow>
          (let u = url_parse L (url_parse_calls st) (url (req st))
           in (u, st\<lparr>impl_url := Some u, url_parse_calls := Suc (url_parse_calls st)\<rparr>)))"

definition getAccepts ::
  "('v, 'u, 'q, 'a) lib \<Rightarrow> ('v, 'u, 'a, 'd) request_state \<Rightarrow> 'a \<times> ('v, 'u, 'a, 'd) request_state"
where
  "getAccepts L st =
     (case impl_accept st of
        Some a \<Rightarrow> (a, st)
      | None \<Rightarrow>
          (let a = accepts L (accepts_calls st) (headers (req st))
           in (a, st\<lparr>impl_accept := Some a, accepts_calls := Suc (accepts_calls st)\<rparr>)))"

subsection \<open>The body collector\<close>

text \<open>
  The stream library is not part of the repository either. Its contract is the one the
  collector is written against: while the \<open>Writable\<close> is piped to the source and the
  source has not ended, each chunk of the body is passed to \<open>_write\<close> of the \<open>Writable\<close>;
  when the source ends, the \<open>end\<close> handler of a piped \<open>Writable\<close> runs; \<open>req.unpipe\<close> stops
  both. The \<open>write\<close> handler never calls its third argument \<open>ready\<close>; the contract delivers
  the next chunk all the same. The callbacks of \<open>Promise.try(...).then(...).catch(...)\<close>
  run in the turn of the \<open>end\<close> handler.
\<close>

definition payload_too_large :: js_error where
  "payload_too_large = JsError ''Request payload is too large.'' (Some 413)"

text \<open>The \<open>write\<close> option of the \<open>Writable\<close>.\<close>

definition write_handler ::
  "buffer \<Rightarrow> ('v, 'u, 'a, 'd) request_state \<Rightarrow> ('v, 'u, 'a, 'd) request_state"
where
  "write_handler chunk st =
     (let st1 = st\<lparr>bytesWritten := bytesWritten st + length chunk, acc := acc st @ [chunk]\<rparr>
      in if js_lt (bytesWritten st1) (maxBodySize st1) then st1
         else st1\<lparr>req_piped := False,
                  write_installed := False,
                  promise := reject payload_too_large (promise st1),
                  events := events st1 @ [Unpipe, CallReject payload_too_large]\<rparr>)"

text \<open>The \<open>end\<close> option of the \<open>Writable\<close>; \<open>concat\<close> is \<open>Buffer.concat\<close>.\<close>

definition end_handler ::
  "('v, 'u, 'q, 'a) lib \<Rightarrow> ('v, 'u, 'a, 'd) request_state \<Rightarrow> ('v, 'u, 'a, 'd) request_state"
where
  "end_handler L st =
     (case JSON_parse L (concat (acc st)) of
        Inr obj \<Rightarrow> st\<lparr>promise := resolve obj (promise st),
                      events := events st @ [CallResolve obj]\<rparr>
      | Inl err \<Rightarrow> st\<lparr>promise := reject (assign_statusCode 400 err) (promise st),
                      events := events st @ [CallReject (assign_statusCode 400 err)]\<rparr>)"

definition collectBody ::
  "('v, 'u, 'a, 'd) request_state \<Rightarrow> ('v, 'u, 'a, 'd) request_state"
where
  "collectBody st =
     st\<lparr>bytesWritten := 0, acc := [], write_installed := True,
        req_piped := True, req_pipe_calls := req_pipe_calls st @ [PipeToSink]\<rparr>"

text \<open>The inner function \<open>getBody\<close>: the value of \<open>impl.body\<close> on the collecting path.\<close>

definition getBody_inner ::
  "('v, 'u, 'a, 'd) request_state \<Rightarrow> js_ref \<times> ('v, 'u, 'a, 'd) request_state"
where
  "getBody_inner st =
     (if \<not> triggered st then (PromiseOfGetBody, collectBody (st\<lparr>triggered := True\<rparr>))
      else (PromiseOfGetBody, st))"

text \<open>The outer function \<open>getBody(impl, req)\<close>: a new promise, \<open>triggered = false\<close>.\<close>

definition getBody ::
  "('v, 'u, 'a, 'd) request_state \<Rightarrow> js_ref \<times> ('v, 'u, 'a, 'd) request_state"
where
  "getBody st =
     (FunctionGetBody,
      st\<lparr>promise := Pending, triggered := False, getBody_calls := Suc (getBody_calls st)\<rparr>)"

text \<open>\<open>getDisabledBody(reason)\<close>: a new promise, and a callback for \<open>setImmediate\<close>.\<close>

definition getDisabledBody ::
  "js_error \<Rightarrow> ('v, 'u, 'a, 'd) request_state \<Rightarrow> js_ref \<times> ('v, 'u, 'a, 'd) request_state"
where
  "getDisabledBody reason st =
     (PromiseOfGetDisabledBody,
      st\<lparr>disabled_promise := Pending, immediates := immediates st @ [reason],
         getDisabledBody_calls := Suc (getDisabledBody_calls st)\<rparr>)"

definition call_impl_getBody ::
  "('v, 'u, 'a, 'd) request_state \<Rightarrow> js_ref \<times> ('v, 'u, 'a, 'd) request_state"
where
  "call_impl_getBody st =
     (case impl_getBody st of
        CallGetBody \<Rightarrow> getBody st
      | CallGetDisabledBody reason \<Rightarrow> getDisabledBody reason st)"

text \<open>The methods \<open>Impl.getBody\<close> and \<open>Impl.disableBody\<close>.\<close>

definition Impl_getBody ::
  "('v, 'u, 'a, 'd) request_state \<Rightarrow> js_ref \<times> ('v, 'u, 'a, 'd) request_state"
where
  "Impl_getBody st =
     (case impl_body st of
        Some b \<Rightarrow> (b, st)
      | None \<Rightarrow> (let (b, st1) = call_impl_getBody st in (b, st1\<lparr>impl_body := Some b\<rparr>)))"

definition disableBody ::
  "js_error \<Rightarrow> ('v, 'u, 'a, 'd) request_state \<Rightarrow> ('v, 'u, 'a, 'd) request_state"
where
  "disableBody reason st = st\<lparr>impl_getBody := CallGetDisabledBody reason\<rparr>"

text \<open>
  Calling a value with no argument: the function runs, a promise is not callable.
\<close>

definition call_value ::
  "js_ref \<Rightarrow> ('v, 'u, 'a, 'd) request_state \<Rightarrow> exn + (js_ref \<times> ('v, 'u, 'a, 'd) request_state)"
where
  "call_value f st =
     (case f of
        FunctionGetBody \<Rightarrow> Inr (getBody_inner st)
      | PromiseOfGetBody \<Rightarrow> Inl TypeError
      | PromiseOfGetDisabledBody \<Rightarrow> Inl TypeError)"


subsection \<open>The facade\<close>

definition raw_accessed :: js_error where
  "raw_accessed = JsError (''Cannot read the body if '' @ [CHR 0x22] @ ''raw'' @ [CHR 0x22] @ '' has been accessed.'') None"

text \<open>The getter \<open>raw\<close>; its value is the incoming message.\<close>

definition KnorkRequest_raw ::
  "('v, 'u, 'a, 'd) request_state \<Rightarrow> ('v, 'u, 'a, 'd) request_state"
where
  "KnorkRequest_raw st = disableBody raw_accessed st"

text \<open>
  The getter \<open>pipe\<close> returns an arrow function. An arrow function has no \<open>arguments\<close> of
  its own: the name is the one of the getter, which is called with no argument.
  \<open>pipe_arrow getter_arguments call_arguments\<close> is a call of the arrow function:
  \<open>this.raw.pipe.apply(this.raw, arguments)\<close> reads \<open>this.raw\<close> twice.
\<close>

definition pipe_arrow ::
  "'d list \<Rightarrow> 'd list \<Rightarrow> ('v, 'u, 'a, 'd) request_state \<Rightarrow> ('v, 'u, 'a, 'd) request_state"
where
  "pipe_arrow getter_arguments call_arguments st =
     (let st1 = KnorkRequest_raw st; st2 = KnorkRequest_raw st1
      in st2\<lparr>req_pipe_calls := req_pipe_calls st2 @ [PipeApply getter_arguments]\<rparr>)"

text \<open>\<open>kreq.pipe(d1, ..., dn)\<close>: the getter, then a call of its value.\<close>

definition KnorkRequest_pipe ::
  "'d list \<Rightarrow> ('v, 'u, 'a, 'd) request_state \<Rightarrow> ('v, 'u, 'a, 'd) request_state"
where
  "KnorkRequest_pipe call_arguments st = pipe_arrow [] call_arguments st"

definition KnorkRequest_id ::
  "('v, 'u, 'q, 'a) lib \<Rightarrow> ('v, 'u, 'a, 'd) request_state \<Rightarrow> string \<times> ('v, 'u, 'a, 'd) request_state"
where
  "KnorkRequest_id L st = getID L st"

definition KnorkRequest_body ::
  "('v, 'u, 'a, 'd) request_state \<Rightarrow> js_ref \<times> ('v, 'u, 'a, 'd) request_state"
where
  "KnorkRequest_body st = Impl_getBody st"

definition KnorkRequest_urlObject ::
  "('v, 'u, 'q, 'a) lib \<Rightarrow> ('v, 'u, 'a, 'd) request_state \<Rightarrow> 'u \<times> ('v, 'u, 'a, 'd) request_state"
where
  "KnorkRequest_urlObject L st = getURL L st"

definition KnorkRequest_query ::
  "('v, 'u, 'q, 'a) lib \<Rightarrow> ('v, 'u, 'a, 'd) request_state \<Rightarrow> 'q \<times> ('v, 'u, 'a, 'd) request_state"
where
  "KnorkRequest_query L st = (let (u, st1) = getURL L st in (query_of L u, st1))"

definition KnorkRequest_accept ::
  "('v, 'u, 'q, 'a) lib \<Rightarrow> ('v, 'u, 'a, 'd) request_state \<Rightarrow> 'a \<times> ('v, 'u, 'a, 'd) request_state"
where
  "KnorkRequest_accept L st = getAccepts L st"

subsection \<open>The source stream and the event loop\<close>

definition deliver_chunk ::
  "buffer \<Rightarrow> ('v, 'u, 'a, 'd) request_state \<Rightarrow> ('v, 'u, 'a, 'd) request_state"
where
  "deliver_chunk chunk st =
     (if req_piped st \<and> \<not> req_ended st
      then (let st1 = st\<lparr>writes_delivered := Suc (writes_delivered st)\<rparr>
            in if write_installed st1 then write_handler chunk st1 else st1)
      else st)"

definition deliver_end ::
  "('v, 'u, 'q, 'a) lib \<Rightarrow> ('v, 'u, 'a, 'd) request_state \<Rightarrow> ('v, 'u, 'a, 'd) request_state"
where
  "deliver_end L st =
     (if req_ended st then st
      else (let st1 = st\<lparr>req_ended := True\<rparr>
            in if req_piped st1 then end_handler L st1 else st1))"

text \<open>The callbacks passed to \<open>setImmediate\<close> run: each rejects the promise with its reason.\<close>

definition run_immediates ::
  "('v, 'u, 'a, 'd) request_state \<Rightarrow> ('v, 'u, 'a, 'd) request_state"
where
  "run_immediates st =
     st\<lparr>disabled_promise := fold reject (immediates st) (disabled_promise st),
        immediates := []\<rparr>"

subsection \<open>Call sequences\<close>

text \<open>
  What a handler and the environment can do with one request, in any order: read an
  accessor, call the value the \<open>body\<close> accessor has returned, call \<open>pipe\<close>, deliver a
  chunk, end the source, run the pending immediates.
\<close>

datatype 'd action =
    GetId | GetUrlObject | GetQuery | GetAccept | GetBody | GetRaw
  | CallBody | CallPipe "'d list" | Chunk buffer | End | Immediates

definition step ::
  "('v, 'u, 'q, 'a) lib \<Rightarrow> 'd action \<Rightarrow> ('v, 'u, 'a, 'd) request_state \<Rightarrow> ('v, 'u, 'a, 'd) request_state"
where
  "step L a st =
     (case a of
        GetId \<Rightarrow> snd (KnorkRequest_id L st)
      | GetUrlObject \<Rightarrow> snd (KnorkRequest_urlObject L st)
      | GetQuery \<Rightarrow> snd (KnorkRequest_query L st)
      | GetAccept \<Rightarrow> snd (KnorkRequest_accept L st)
      | GetBody \<Rightarrow> snd (KnorkRequest_body st)
      | GetRaw \<Rightarrow> KnorkRequest_raw st
      | CallBody \<Rightarrow>
          (case impl_body st of
             None \<Rightarrow> st
           | Some f \<Rightarrow> (case call_value f st of Inl e \<Rightarrow> st | Inr (p, st1) \<Rightarrow> st1))
      | CallPipe ds \<Rightarrow> KnorkRequest_pipe ds st
      | Chunk c \<Rightarrow> deliver_chunk c st
      | End \<Rightarrow> deliver_end L st
      | Immediates \<Rightarrow> run_immediates st)"

definition run ::
  "('v, 'u, 'q, 'a) lib \<Rightarrow> 'd action list \<Rightarrow> ('v, 'u, 'a, 'd) request_state \<Rightarrow> ('v, 'u, 'a, 'd) request_state"
where
  "run L as st = fold (step L) as st"

subsection \<open>A library instance for evaluation\<close>

text \<open>
  The theorems below hold for every library. To evaluate the model on concrete requests,
  \<open>sample_lib\<close> fixes one: its \<open>JSON_parse\<close> knows the JSON texts \<open>true\<close> and \<open>false\<close> and
  throws on every other input, its digests and random buffers are fixed bytes, and its
  URL and accept objects are tagged with the number of the call that made them.
\<close>

definition sample_JSON_parse :: "buffer \<Rightarrow> js_error + bool" where
  "sample_JSON_parse b =
     (if b = [0x74, 0x72, 0x75, 0x65] then Inr True
      else if b = [0x66, 0x61, 0x6C, 0x73, 0x65] then Inr False
      else Inl (JsError ''Unexpected token'' None))"

definition sample_lib :: "(bool, nat \<times> string, string, nat) lib" where
  "sample_lib =
     \<lparr> sha1 = (\<lambda>s. replicate 20 (of_nat (length s))),
       uuid_v4 = (\<lambda>n i. of_nat (n + i)),
       JSON_parse = sample_JSON_parse,
       url_parse = (\<lambda>n s. (n, s)),
       query_of = snd,
       accepts = (\<lambda>n h. n) \<rparr>"

definition sample_server :: server where
  "sample_server = \<lparr> isExternal = False, requestIDHeaders = None, opts_maxBodySize = 1000 \<rparr>"

definition sample_request :: incoming where
  "sample_request = \<lparr> headers = Map.empty, url = ''/items?page=2'' \<rparr>"

subsection \<open>Phases of the body of a request\<close>

text \<open>
  The states a request goes through, as far as its body is concerned. \<open>untouched\<close>: the
  \<open>body\<close> accessor has not been read. \<open>function_held\<close>: it has returned the collecting
  function, which has not been called. \<open>collecting\<close>: the function has been called, the
  \<open>Writable\<close> is piped and the promise is pending. \<open>too_large\<close>: the \<open>write\<close> handler has
  rejected. \<open>completed\<close>: the \<open>end\<close> handler has run. \<open>disabled\<close>: the accessor has returned
  the promise of \<open>getDisabledBody\<close>.
\<close>

definition untouched :: "('v, 'u, 'a, 'd) request_state \<Rightarrow> bool" where
  "untouched st \<longleftrightarrow>
     impl_body st = None \<and> \<not> triggered st \<and> promise st = Pending \<and> \<not> req_piped st
     \<and> \<not> write_installed st \<and> events st = [] \<and> writes_delivered st = 0
     \<and> PipeToSink \<notin> set (req_pipe_calls st)
     \<and> immediates st = [] \<and> disabled_promise st = Pending
     \<and> getBody_calls st = 0 \<and> getDisabledBody_calls st = 0"

definition function_held :: "('v, 'u, 'a, 'd) request_state \<Rightarrow> bool" where
  "function_held st \<longleftrightarrow>
     impl_body st = Some FunctionGetBody \<and> \<not> triggered st \<and> promise st = Pending
     \<and> \<not> req_piped st \<and> \<not> write_installed st \<and> events st = [] \<and> writes_delivered st = 0
     \<and> PipeToSink \<notin> set (req_pipe_calls st)
     \<and> immediates st = [] \<and> disabled_promise st = Pending
     \<and> getBody_calls st = 1 \<and> getDisabledBody_calls st = 0"

definition collecting :: "('v, 'u, 'a, 'd) request_state \<Rightarrow> bool" where
  "collecting st \<longleftrightarrow>
     impl_body st = Some FunctionGetBody \<and> triggered st \<and> promise st = Pending
     \<and> req_piped st \<and> write_installed st \<and> events st = [] \<and> writes_delivered st = 0
     \<and> bytesWritten st = 0 \<and> acc st = []
     \<and> count_list (req_pipe_calls st) PipeToSink = 1
     \<and> immediates st = [] \<and> disabled_promise st = Pending
     \<and> getBody_calls st = 1 \<and> getDisabledBody_calls st = 0"

definition too_large :: "('v, 'u, 'a, 'd) request_state \<Rightarrow> bool" where
  "too_large st \<longleftrightarrow>
     impl_body st = Some FunctionGetBody \<and> triggered st
     \<and> promise st = Rejected payload_too_large
     \<and> \<not> req_piped st \<and> \<not> write_installed st
     \<and> events st = [Unpipe, CallReject payload_too_large] \<and> writes_delivered st = 1
     \<and> count_list (req_pipe_calls st) PipeToSink = 1
     \<and> immediates st = [] \<and> disabled_promise st = Pending
     \<and> getBody_calls st = 1 \<and> getDisabledBody_calls st = 0"

definition completed ::
  "('v, 'u, 'q, 'a) lib \<Rightarrow> ('v, 'u, 'a, 'd) request_state \<Rightarrow> bool"
where
  "completed L st \<longleftrightarrow>
     impl_body st = Some FunctionGetBody \<and> triggered st \<and> req_ended st \<and> req_piped st
     \<and> writes_delivered st = 0 \<and> acc st = []
     \<and> (case JSON_parse L [] of
           Inr obj \<Rightarrow> promise st = Resolved obj \<and> events st = [CallResolve obj]
         | Inl err \<Rightarrow> promise st = Rejected (assign_statusCode 400 err)
                      \<and> events st = [CallReject (assign_statusCode 400 err)])
     \<and> count_list (req_pipe_calls st) PipeToSink = 1
     \<and> immediates st = [] \<and> disabled_promise st = Pending
     \<and> getBody_calls st = 1 \<and> getDisabledBody_calls st = 0"

definition disabled :: "('v, 'u, 'a, 'd) request_state \<Rightarrow> bool" where
  "disabled st \<longleftrightarrow>
     impl_body st = Some PromiseOfGetDisabledBody
     \<and> \<not> triggered st \<and> promise st = Pending \<and> \<not> req_piped st
     \<and> \<not> write_installed st \<and> events st = [] \<and> writes_delivered st = 0
     \<and> PipeToSink \<notin> set (req_pipe_calls st)
     \<and> (disabled_promise st = Pending \<and> immediates st = [raw_accessed]
          \<or> disabled_promise st = Rejected raw_accessed \<and> immediates st = [])
     \<and> getBody_calls st = 0 \<and> getDisabledBody_calls st = 1"

definition reachable_shape ::
  "('v, 'u, 'q, 'a) lib \<Rightarrow> ('v, 'u, 'a, 'd) request_state \<Rightarrow> bool"
where
  "reachable_shape L st \<longleftrightarrow>
     maxBodySize st = None
     \<and> (impl_getBody st = CallGetBody \<or> impl_getBody st = CallGetDisabledBody raw_accessed)
     \<and> (untouched st \<or> function_held st \<or> collecting st \<or> too_large st \<or> completed L st
          \<or> disabled st)"

subsection \<open>Memoized fields\<close>

text \<open>
  For a request constructed when \<open>uuid.v4\<close> had been called \<open>n\<close> times: each of
  \<open>uuid.v4\<close>, \<open>url.parse\<close> and \<open>accepts\<close> has run at most once for this request, and if it
  has, its field is set.
\<close>

definition computed_once :: "nat \<Rightarrow> ('v, 'u, 'a, 'd) request_state \<Rightarrow> bool" where
  "computed_once n st \<longleftrightarrow>
     (uuid_calls st = n \<or> uuid_calls st = Suc n \<and> or_null (impl_id st) \<noteq> None)
     \<and> (url_parse_calls st = 0 \<or> url_parse_calls st = 1 \<and> impl_url st \<noteq> None)
     \<and> (accepts_calls st = 0 \<or> accepts_calls st = 1 \<and> impl_accept st \<noteq> None)"

section \<open>Properties\<close>

subsection \<open>Every step keeps the request in one of its phases\<close>

lemmas accessor_defs =
  KnorkRequest_id_def KnorkRequest_urlObject_def KnorkRequest_query_def KnorkRequest_accept_def
  getID_def getURL_def getAccepts_def

lemmas body_defs =
  KnorkRequest_body_def Impl_getBody_def call_impl_getBody_def getBody_def getDisabledBody_def
  call_value_def getBody_inner_def collectBody_def

lemmas raw_defs = KnorkRequest_raw_def KnorkRequest_pipe_def pipe_arrow_def disableBody_def

lemmas stream_defs =
  deliver_chunk_def deliver_end_def write_handler_def end_handler_def run_immediates_def
  js_lt_def reject_def resolve_def

lemmas phase_defs =
  untouched_def function_held_def collecting_def too_large_def completed_def disabled_def

lemma run_Nil [simp]: "run L [] st = st"
  by (simp add: run_def)

lemma run_Cons [simp]: "run L (a # as) st = run L as (step L a st)"
  by (simp add: run_def)

lemma run_append [simp]: "run L (as @ bs) st = run L bs (run L as st)"
  by (simp add: run_def)

lemma untouched_step:
  "untouched st \<Longrightarrow> a \<noteq> GetBody \<Longrightarrow> untouched (step L a st)"
  by (cases a)
     (auto simp: step_def untouched_def accessor_defs raw_defs stream_defs Let_def
           split: option.splits prod.splits)

lemma untouched_GetBody:
  "untouched st \<Longrightarrow>
   (impl_getBody st = CallGetBody \<longrightarrow> function_held (step L GetBody st))
   \<and> (impl_getBody st = CallGetDisabledBody raw_accessed \<longrightarrow> disabled (step L GetBody st))"
  by (auto simp: step_def untouched_def function_held_def disabled_def body_defs Let_def
           split: option.splits prod.splits)

lemma function_held_step:
  "function_held st \<Longrightarrow> a \<noteq> CallBody \<Longrightarrow> function_held (step L a st)"
  by (cases a)
     (auto simp: step_def function_held_def accessor_defs body_defs raw_defs stream_defs Let_def
           split: option.splits prod.splits)

lemma function_held_CallBody:
  "function_held st \<Longrightarrow> collecting (step L CallBody st)"
  by (auto simp: step_def function_held_def collecting_def body_defs Let_def
           split: option.splits prod.splits)


lemma collecting_step:
  "collecting st \<Longrightarrow> maxBodySize st = None \<Longrightarrow>
   (case a of
      Chunk c \<Rightarrow> (if req_ended st then collecting (step L a st) else too_large (step L a st))
    | End \<Rightarrow> (if req_ended st then collecting (step L a st) else completed L (step L a st))
    | _ \<Rightarrow> collecting (step L a st))"
  by (cases a)
     (auto simp: step_def collecting_def too_large_def completed_def accessor_defs body_defs
                 raw_defs stream_defs Let_def
           split: option.splits prod.splits sum.splits thunk.splits js_ref.splits)

lemma too_large_step: "too_large st \<Longrightarrow> too_large (step L a st)"
  by (cases a)
     (auto simp: step_def too_large_def accessor_defs body_defs raw_defs stream_defs Let_def
           split: option.splits prod.splits sum.splits thunk.splits js_ref.splits)

lemma completed_step: "completed L st \<Longrightarrow> completed L (step L a st)"
  by (cases a)
     (auto simp: step_def completed_def accessor_defs body_defs raw_defs stream_defs Let_def
           split: option.splits prod.splits sum.splits thunk.splits js_ref.splits)

lemma disabled_step: "disabled st \<Longrightarrow> disabled (step L a st)"
  by (cases a)
     (auto simp: step_def disabled_def accessor_defs body_defs raw_defs stream_defs Let_def
           split: option.splits prod.splits sum.splits thunk.splits js_ref.splits)

lemma maxBodySize_step: "maxBodySize (step L a st) = maxBodySize st"
  by (cases a)
     (auto simp: step_def accessor_defs body_defs raw_defs stream_defs Let_def
           split: option.splits prod.splits sum.splits thunk.splits js_ref.splits)

lemma impl_getBody_step:
  "impl_getBody (step L a st) =
     (if a = GetRaw \<or> (\<exists>ds. a = CallPipe ds) then CallGetDisabledBody raw_accessed
      else impl_getBody st)"
  by (cases a)
     (auto simp: step_def accessor_defs body_defs raw_defs stream_defs Let_def
           split: option.splits prod.splits sum.splits thunk.splits js_ref.splits)

lemma too_large_run: "too_large st \<Longrightarrow> too_large (run L as st)"
  by (induction as arbitrary: st) (simp_all add: too_large_step)

lemma completed_run: "completed L st \<Longrightarrow> completed L (run L as st)"
  by (induction as arbitrary: st) (simp_all add: completed_step)


lemma maxBodySize_run: "maxBodySize (run L as st) = maxBodySize st"
  by (induction as arbitrary: st) (simp_all add: maxBodySize_step)

lemma reachable_shape_step: "reachable_shape L st \<Longrightarrow> reachable_shape L (step L a st)"
proof -
  assume r: "reachable_shape L st"
  then have m: "maxBodySize st = None"
    and g: "impl_getBody st = CallGetBody \<or> impl_getBody st = CallGetDisabledBody raw_accessed"
    and p: "untouched st \<or> function_held st \<or> collecting st \<or> too_large st \<or> completed L st
          \<or> disabled st"
    by (simp_all add: reachable_shape_def)
  have g': "impl_getBody (step L a st) = CallGetBody
            \<or> impl_getBody (step L a st) = CallGetDisabledBody raw_accessed"
    using g by (simp add: impl_getBody_step)
  have p': "untouched (step L a st) \<or> function_held (step L a st) \<or> collecting (step L a st)
            \<or> too_large (step L a st) \<or> completed L (step L a st) \<or> disabled (step L a st)"
    using p
  proof (elim disjE)
    assume u: "untouched st"
    show ?thesis
    proof (cases "a = GetBody")
      case True
      then show ?thesis using untouched_GetBody [OF u, where L=L] g by auto
    next
      case False
      then show ?thesis using untouched_step [OF u False] by blast
    qed
  next
    assume f: "function_held st"
    show ?thesis
    proof (cases "a = CallBody")
      case True
      then show ?thesis using function_held_CallBody [OF f, where L=L] by blast
    next
      case False
      then show ?thesis using function_held_step [OF f False] by blast
    qed
  next
    assume c: "collecting st"
    show ?thesis using collecting_step [OF c m, where a=a and L=L] by (cases a) (auto split: if_splits)
  next
    assume "too_large st"
    then show ?thesis by (simp add: too_large_step)
  next
    assume "completed L st"
    then show ?thesis by (simp add: completed_step)
  next
    assume "disabled st"
    then show ?thesis by (simp add: disabled_step)
  qed
  show ?thesis
    using m g' p' by (simp add: reachable_shape_def maxBodySize_step)
qed

lemma reachable_shape_run: "reachable_shape L st \<Longrightarrow> reachable_shape L (run L as st)"
  by (induction as arbitrary: st) (simp_all add: reachable_shape_step)

lemma reachable_shape_new: "reachable_shape L (new_Impl r i n)"
  by (simp add: reachable_shape_def untouched_def new_Impl_def)

lemma Impl_constructor_new:
  "Impl_constructor L srv r n = Inr st \<Longrightarrow> \<exists>i m. st = new_Impl r i m"
  by (auto simp: Impl_constructor_def split: sum.splits if_splits)

lemma reachable_shape_constructed:
  "Impl_constructor L srv r n = Inr st \<Longrightarrow> reachable_shape L (run L as st)"
  using Impl_constructor_new reachable_shape_new reachable_shape_run by metis

lemma allocations_le_1:
  assumes "Impl_constructor L srv r n = Inr st"
  shows "getBody_calls (run L as st) + getDisabledBody_calls (run L as st) \<le> 1"
  using reachable_shape_constructed [OF assms, of as]
  by (auto simp: reachable_shape_def phase_defs)

lemma single_subscription:
  assumes "Impl_constructor L srv r n = Inr st"
  shows "count_list (req_pipe_calls (run L as st)) PipeToSink \<le> 1"
  using reachable_shape_constructed [OF assms, of as]
  by (auto simp: reachable_shape_def phase_defs)

lemma collecting_iff:
  "reachable_shape L st \<Longrightarrow> triggered st \<Longrightarrow> promise st = Pending \<Longrightarrow> collecting st"
  by (auto simp: reachable_shape_def phase_defs split: sum.splits)

lemma too_large_after_chunks:
  assumes "collecting st" "maxBodySize st = None" "\<not> req_ended st" "cs \<noteq> []"
  shows "too_large (run L (map Chunk cs @ bs) st)"
proof (cases cs)
  case Nil
  then show ?thesis using assms by simp
next
  case (Cons c cs')
  have "too_large (step L (Chunk c) st)"
    using collecting_step [OF assms(1) assms(2), where a="Chunk c" and L=L] assms(3) by simp
  then show ?thesis
    unfolding Cons by (simp add: too_large_run)
qed

lemmas run_eval =
  step_def accessor_defs body_defs raw_defs stream_defs new_Impl_def Let_def

lemma end_handler_malformed:
  "JSON_parse L (concat (acc st)) = Inl err \<Longrightarrow> promise st = Pending \<Longrightarrow>
   promise (end_handler L st) = Rejected (JsError (message err) (Some 400))"
  by (simp add: end_handler_def reject_def assign_statusCode_def)

lemma end_handler_parsed:
  "JSON_parse L (concat (acc st)) = Inr obj \<Longrightarrow> promise st = Pending \<Longrightarrow>
   promise (end_handler L st) = Resolved obj"
  by (simp add: end_handler_def resolve_def)

lemma settled_cases:
  "reachable_shape L st \<Longrightarrow>
   promise st = Pending \<or> promise st = Rejected payload_too_large
   \<or> promise st = (case JSON_parse L [] of
                     Inr obj \<Rightarrow> Resolved obj
                   | Inl err \<Rightarrow> Rejected (assign_statusCode 400 err))"
  by (auto simp: reachable_shape_def phase_defs split: sum.splits)

lemma not_raw_accessed:
  "payload_too_large \<noteq> raw_accessed" "assign_statusCode 400 err \<noteq> raw_accessed"
  by (simp_all add: payload_too_large_def raw_accessed_def assign_statusCode_def)







subsection \<open>Generated identifiers\<close>

lemma length_base64: "length (base64 bs) = 4 * ((length bs + 2) div 3)"
  by (induction bs rule: base64.induct) (simp_all, arith)

lemma length_ID_SCRATCH_BUFFER: "length (ID_SCRATCH_BUFFER L n) = 16"
  by (simp add: ID_SCRATCH_BUFFER_def)

lemma length_generated: "length (base64 (ID_SCRATCH_BUFFER L n)) = 24"
  by (simp add: length_base64 length_ID_SCRATCH_BUFFER)

lemma generated_nonempty: "base64 (ID_SCRATCH_BUFFER L n) \<noteq> []"
  using length_generated [of L n] by auto

lemma or_null_generated:
  "or_null (Some (base64 (ID_SCRATCH_BUFFER L n))) = Some (base64 (ID_SCRATCH_BUFFER L n))"
  by (simp add: or_null_def generated_nonempty)

lemma getID_unset:
  "or_null (impl_id st) = None \<Longrightarrow>
   getID L st = (base64 (ID_SCRATCH_BUFFER L (uuid_calls st)),
                 st\<lparr>impl_id := Some (base64 (ID_SCRATCH_BUFFER L (uuid_calls st))),
                    uuid_calls := Suc (uuid_calls st)\<rparr>)"
  by (simp add: getID_def Let_def)

lemma getID_set: "or_null (impl_id st) = Some s \<Longrightarrow> getID L st = (s, st)"
  by (simp add: getID_def)

lemma or_null_idem: "or_null (or_null x) = or_null x"
  by (simp add: or_null_def split: option.splits)

lemma Impl_constructor_internal:
  "\<not> isExternal srv \<Longrightarrow>
   Impl_constructor L srv r n = Inr (new_Impl r (or_null (headers r ''request-id'')) n)"
  by (simp add: Impl_constructor_def)

subsection \<open>A field that is set stays set\<close>

lemma id_set_step:
  "or_null (impl_id st) = Some v \<Longrightarrow>
   impl_id (step L a st) = impl_id st \<and> uuid_calls (step L a st) = uuid_calls st"
  by (cases a)
     (auto simp: step_def accessor_defs body_defs raw_defs stream_defs Let_def
           split: option.splits prod.splits sum.splits thunk.splits js_ref.splits)

lemma url_set_step:
  "impl_url st = Some u \<Longrightarrow>
   impl_url (step L a st) = Some u \<and> url_parse_calls (step L a st) = url_parse_calls st"
  by (cases a)
     (auto simp: step_def accessor_defs body_defs raw_defs stream_defs Let_def
           split: option.splits prod.splits sum.splits thunk.splits js_ref.splits)

lemma accept_set_step:
  "impl_accept st = Some x \<Longrightarrow>
   impl_accept (step L a st) = Some x \<and> accepts_calls (step L a st) = accepts_calls st"
  by (cases a)
     (auto simp: step_def accessor_defs body_defs raw_defs stream_defs Let_def
           split: option.splits prod.splits sum.splits thunk.splits js_ref.splits)

lemma id_set_run:
  "or_null (impl_id st) = Some v \<Longrightarrow>
   impl_id (run L as st) = impl_id st \<and> uuid_calls (run L as st) = uuid_calls st"
proof (induction as arbitrary: st)
  case Nil
  then show ?case by simp
next
  case (Cons a as)
  have s: "impl_id (step L a st) = impl_id st \<and> uuid_calls (step L a st) = uuid_calls st"
    using Cons.prems by (rule id_set_step)
  then have "or_null (impl_id (step L a st)) = Some v"
    using Cons.prems by simp
  then show ?case
    using Cons.IH s by simp
qed

lemma url_set_run:
  "impl_url st = Some u \<Longrightarrow>
   impl_url (run L as st) = Some u \<and> url_parse_calls (run L as st) = url_parse_calls st"
proof (induction as arbitrary: st)
  case Nil
  then show ?case by simp
next
  case (Cons a as)
  have s: "impl_url (step L a st) = Some u \<and> url_parse_calls (step L a st) = url_parse_calls st"
    using Cons.prems by (rule url_set_step)
  then show ?case
    using Cons.IH [of "step L a st"] by simp
qed

lemma accept_set_run:
  "impl_accept st = Some x \<Longrightarrow>
   impl_accept (run L as st) = Some x \<and> accepts_calls (run L as st) = accepts_calls st"
proof (induction as arbitrary: st)
  case Nil
  then show ?case by simp
next
  case (Cons a as)
  have s: "impl_accept (step L a st) = Some x \<and> accepts_calls (step L a st) = accepts_calls st"
    using Cons.prems by (rule accept_set_step)
  then show ?case
    using Cons.IH [of "step L a st"] by simp
qed

lemma getID_sets:
  "or_null (impl_id (snd (getID L st))) = Some (fst (getID L st))
   \<and> impl_id (snd (getID L st)) = Some (fst (getID L st))"
  by (auto simp: getID_def Let_def or_null_def generated_nonempty split: option.splits if_splits)

lemma getURL_sets: "impl_url (snd (getURL L st)) = Some (fst (getURL L st))"
  by (simp add: getURL_def Let_def split: option.splits)

lemma getAccepts_sets: "impl_accept (snd (getAccepts L st)) = Some (fst (getAccepts L st))"
  by (simp add: getAccepts_def Let_def split: option.splits)

lemma getID_cached: "or_null (impl_id st) = Some v \<Longrightarrow> getID L st = (v, st)"
  by (simp add: getID_def)

lemma getURL_cached: "impl_url st = Some u \<Longrightarrow> getURL L st = (u, st)"
  by (simp add: getURL_def)

lemma getAccepts_cached: "impl_accept st = Some x \<Longrightarrow> getAccepts L st = (x, st)"
  by (simp add: getAccepts_def)

lemma computed_once_step: "computed_once n st \<Longrightarrow> computed_once n (step L a st)"
  by (cases a)
     (auto simp: computed_once_def step_def accessor_defs body_defs raw_defs stream_defs Let_def
                 or_null_generated
           split: option.splits prod.splits sum.splits thunk.splits js_ref.splits)

lemma computed_once_run: "computed_once n st \<Longrightarrow> computed_once n (run L as st)"
  by (induction as arbitrary: st) (simp_all add: computed_once_step)

lemma computed_once_constructed:
  "Impl_constructor L srv r n = Inr st \<Longrightarrow> computed_once n st"
  by (auto simp: Impl_constructor_def hashIncoming_def generateID_def computed_once_def
                 new_Impl_def or_null_def Let_def
           split: if_splits option.splits sum.splits)


subsection \<open>Correlation id, internal mode\<close>

lemma new_Impl_simps:
  "impl_id (new_Impl r i n) = i" "uuid_calls (new_Impl r i n) = n"
  by (simp_all add: new_Impl_def)


text \<open>
  Claim C10. In internal mode, a request whose \<open>request-id\<close> header is the empty string is
  constructed exactly as the same request without the header: \<open>id\<close> is \<open>null\<close> after the
  constructor, and the first read of \<open>id\<close> draws a buffer from \<open>uuid.v4\<close> and returns its
  base64 text, 24 characters long, so not the empty string.
\<close>

theorem C10_empty_request_id:
  assumes "\<not> isExternal srv" and "headers r ''request-id'' = Some []"
  shows "Impl_constructor L srv r n = Inr (new_Impl r None n)
       \<and> Impl_constructor L srv (r\<lparr>headers := (headers r)(''request-id'' := None)\<rparr>) n
           = Inr (new_Impl (r\<lparr>headers := (headers r)(''request-id'' := None)\<rparr>) None n)
       \<and> impl_id (new_Impl r None n :: ('v, 'u, 'a, 'd) request_state) = None
       \<and> KnorkRequest_id L (new_Impl r None n :: ('v, 'u, 'a, 'd) request_state)
           = (base64 (ID_SCRATCH_BUFFER L n),
              (new_Impl r None n)\<lparr>impl_id := Some (base64 (ID_SCRATCH_BUFFER L n)), uuid_calls := Suc n\<rparr>)
       \<and> length (base64 (ID_SCRATCH_BUFFER L n)) = 24
       \<and> base64 (ID_SCRATCH_BUFFER L n) \<noteq> []"
proof -
  have a: "Impl_constructor L srv r n = Inr (new_Impl r None n)"
    using assms by (simp add: Impl_constructor_internal or_null_def)
  have b: "Impl_constructor L srv (r\<lparr>headers := (headers r)(''request-id'' := None)\<rparr>) n
           = Inr (new_Impl (r\<lparr>headers := (headers r)(''request-id'' := None)\<rparr>) None n)"
    using assms by (simp add: Impl_constructor_internal or_null_def)
  have c: "impl_id (new_Impl r None n :: ('v, 'u, 'a, 'd) request_state) = None"
    by (simp add: new_Impl_def)
  have d: "uuid_calls (new_Impl r None n :: ('v, 'u, 'a, 'd) request_state) = n"
    by (simp add: new_Impl_def)
  have e: "KnorkRequest_id L (new_Impl r None n :: ('v, 'u, 'a, 'd) request_state)
           = (base64 (ID_SCRATCH_BUFFER L n),
              (new_Impl r None n)\<lparr>impl_id := Some (base64 (ID_SCRATCH_BUFFER L n)), uuid_calls := Suc n\<rparr>)"
    by (simp add: KnorkRequest_id_def getID_def or_null_def new_Impl_def Let_def)
  show ?thesis using a b c e length_generated generated_nonempty by blast
qed

theorem C10_empty_request_id_witness:
  "\<not> isExternal sample_server
   \<and> headers (sample_request\<lparr>headers := [''request-id'' \<mapsto> []]\<rparr>) ''request-id'' = Some []
   \<and> fst (KnorkRequest_id sample_lib
        (new_Impl (sample_request\<lparr>headers := [''request-id'' \<mapsto> []]\<rparr>) None 0
           :: (bool, nat \<times> string, nat, nat) request_state))
       = ''AAECAwQFBgcICQoLDA0ODw==''"
proof -
  have h1: "\<not> isExternal sample_server"
    by (simp add: sample_server_def)
  have h2: "headers (sample_request\<lparr>headers := [''request-id'' \<mapsto> []]\<rparr>) ''request-id'' = Some []"
    by simp
  have g: "base64 (ID_SCRATCH_BUFFER sample_lib 0) = ''AAECAwQFBgcICQoLDA0ODw==''"
    by (simp add: ID_SCRATCH_BUFFER_def sample_lib_def upt_rec b64_char_def b64_alphabet_def)
  from C10_empty_request_id [OF h1 h2, of sample_lib 0]
  have "KnorkRequest_id sample_lib
          (new_Impl (sample_request\<lparr>headers := [''request-id'' \<mapsto> []]\<rparr>) None 0
             :: (bool, nat \<times> string, nat, nat) request_state)
        = (base64 (ID_SCRATCH_BUFFER sample_lib 0),
           (new_Impl (sample_request\<lparr>headers := [''request-id'' \<mapsto> []]\<rparr>) None 0)
             \<lparr>impl_id := Some (base64 (ID_SCRATCH_BUFFER sample_lib 0)), uuid_calls := Suc 0\<rparr>)"
    by blast
  then show ?thesis using h1 h2 g by simp
qed


text \<open>
  Claim C7, as amended. In internal mode the constructor reads the header \<open>request-id\<close> and
  nothing else: the configured list \<open>requestIDHeaders\<close> does not change its result. If the
  header is present and not empty, \<open>id\<close> returns its value verbatim. Otherwise \<open>id\<close> is
  \<open>null\<close> after the constructor, the first read of \<open>id\<close> returns the base64 text of a
  16-byte buffer filled by \<open>uuid.v4\<close>, and the second read returns the same text and draws
  no new buffer.
\<close>

theorem C7_internal_request_id:
  assumes "\<not> isExternal srv"
  shows "Impl_constructor L srv r n = Inr (new_Impl r (or_null (headers r ''request-id'')) n)
       \<and> Impl_constructor L (srv\<lparr>requestIDHeaders := hs\<rparr>) r n = Impl_constructor L srv r n
       \<and> (case or_null (headers r ''request-id'') of
            Some v \<Rightarrow>
              headers r ''request-id'' = Some v
              \<and> KnorkRequest_id L (new_Impl r (Some v) n :: ('v, 'u, 'a, 'd) request_state)
                   = (v, new_Impl r (Some v) n)
          | None \<Rightarrow>
              KnorkRequest_id L (new_Impl r None n :: ('v, 'u, 'a, 'd) request_state)
                = (base64 (ID_SCRATCH_BUFFER L n),
                   (new_Impl r None n)\<lparr>impl_id := Some (base64 (ID_SCRATCH_BUFFER L n)),
                                       uuid_calls := Suc n\<rparr>)
              \<and> KnorkRequest_id L
                   ((new_Impl r None n :: ('v, 'u, 'a, 'd) request_state)
                      \<lparr>impl_id := Some (base64 (ID_SCRATCH_BUFFER L n)), uuid_calls := Suc n\<rparr>)
                = (base64 (ID_SCRATCH_BUFFER L n),
                   (new_Impl r None n)\<lparr>impl_id := Some (base64 (ID_SCRATCH_BUFFER L n)),
                                       uuid_calls := Suc n\<rparr>)
              \<and> length (base64 (ID_SCRATCH_BUFFER L n)) = 24)"
proof -
  have a: "Impl_constructor L srv r n = Inr (new_Impl r (or_null (headers r ''request-id'')) n)"
    using assms by (simp add: Impl_constructor_internal)
  have b: "Impl_constructor L (srv\<lparr>requestIDHeaders := hs\<rparr>) r n = Impl_constructor L srv r n"
    using assms by (simp add: Impl_constructor_def)
  have c: "or_null (headers r ''request-id'') = Some v \<Longrightarrow>
           headers r ''request-id'' = Some v
           \<and> KnorkRequest_id L (new_Impl r (Some v) n :: ('v, 'u, 'a, 'd) request_state)
                = (v, new_Impl r (Some v) n)" for v
    by (auto simp: KnorkRequest_id_def getID_def or_null_def new_Impl_simps split: option.splits if_splits)
  have d: "KnorkRequest_id L (new_Impl r None n :: ('v, 'u, 'a, 'd) request_state)
                = (base64 (ID_SCRATCH_BUFFER L n),
                   (new_Impl r None n)\<lparr>impl_id := Some (base64 (ID_SCRATCH_BUFFER L n)),
                                       uuid_calls := Suc n\<rparr>)"
    by (simp add: KnorkRequest_id_def getID_def or_null_def new_Impl_simps Let_def)
  have e: "KnorkRequest_id L
                   ((new_Impl r None n :: ('v, 'u, 'a, 'd) request_state)
                      \<lparr>impl_id := Some (base64 (ID_SCRATCH_BUFFER L n)), uuid_calls := Suc n\<rparr>)
                = (base64 (ID_SCRATCH_BUFFER L n),
                   (new_Impl r None n)\<lparr>impl_id := Some (base64 (ID_SCRATCH_BUFFER L n)),
                                       uuid_calls := Suc n\<rparr>)"
    by (simp add: KnorkRequest_id_def getID_def or_null_generated)
  show ?thesis
  proof (cases "or_null (headers r ''request-id'')")
    case None
    show ?thesis
      unfolding None option.case
      using a [unfolded None] b d e length_generated [of L n] by blast
  next
    case (Some v)
    show ?thesis
      unfolding Some option.case
      using a [unfolded Some] b c [OF Some] by blast
  qed
qed

theorem C7_internal_request_id_witness:
  "\<not> isExternal sample_server
   \<and> KnorkRequest_id sample_lib
        (new_Impl (sample_request\<lparr>headers := [''request-id'' \<mapsto> ''abc'']\<rparr>) (Some ''abc'') 0
           :: (bool, nat \<times> string, nat, nat) request_state)
     = (''abc'', new_Impl (sample_request\<lparr>headers := [''request-id'' \<mapsto> ''abc'']\<rparr>) (Some ''abc'') 0)"
proof -
  have h: "\<not> isExternal sample_server"
    by (simp add: sample_server_def)
  have o: "or_null (headers (sample_request\<lparr>headers := [''request-id'' \<mapsto> ''abc'']\<rparr>) ''request-id'')
           = Some ''abc''"
    by (simp add: or_null_def)
  from C7_internal_request_id [OF h, of sample_lib "sample_request\<lparr>headers := [''request-id'' \<mapsto> ''abc'']\<rparr>" 0 None]
  have "KnorkRequest_id sample_lib
        (new_Impl (sample_request\<lparr>headers := [''request-id'' \<mapsto> ''abc'']\<rparr>) (Some ''abc'') 0
           :: (bool, nat \<times> string, nat, nat) request_state)
     = (''abc'', new_Impl (sample_request\<lparr>headers := [''request-id'' \<mapsto> ''abc'']\<rparr>) (Some ''abc'') 0)"
    unfolding o option.case by blast
  with h show ?thesis by blast
qed

text \<open>
  Claim C7 as written fails: with \<open>requestIDHeaders = ['x-trace-id']\<close> and the header
  \<open>x-trace-id: abc\<close> on the request, internal mode does not return \<open>abc\<close>; it generates an
  identifier.
\<close>

theorem C7_configured_header_counterexample:
  "\<not> isExternal (sample_server\<lparr>requestIDHeaders := Some [''x-trace-id'']\<rparr>)
   \<and> headers (sample_request\<lparr>headers := [''x-trace-id'' \<mapsto> ''abc'']\<rparr>) ''x-trace-id'' = Some ''abc''
   \<and> Impl_constructor sample_lib (sample_server\<lparr>requestIDHeaders := Some [''x-trace-id'']\<rparr>)
        (sample_request\<lparr>headers := [''x-trace-id'' \<mapsto> ''abc'']\<rparr>) 0
      = Inr (new_Impl (sample_request\<lparr>headers := [''x-trace-id'' \<mapsto> ''abc'']\<rparr>) None 0
              :: (bool, nat \<times> string, nat, nat) request_state)
   \<and> fst (KnorkRequest_id sample_lib
        (new_Impl (sample_request\<lparr>headers := [''x-trace-id'' \<mapsto> ''abc'']\<rparr>) None 0
              :: (bool, nat \<times> string, nat, nat) request_state))
      = ''AAECAwQFBgcICQoLDA0ODw==''"
  by (simp add: sample_server_def Impl_constructor_def or_null_def KnorkRequest_id_def getID_def
        new_Impl_simps ID_SCRATCH_BUFFER_def sample_lib_def upt_rec b64_char_def b64_alphabet_def
        Let_def)

subsection \<open>Correlation id, external mode\<close>

text \<open>
  What \<open>hashIncoming\<close> does: the loop stops at the first candidate whose lower-cased name
  is a header of the request. If that candidate is itself in lower case, the result is
  the base64 SHA-1 digest of the header's value, a hyphen and a generated identifier, and
  the text before the first hyphen is the digest, since base64 has no hyphen.
\<close>

lemma hashIncoming_loop_le:
  "i \<le> length search \<Longrightarrow> hashIncoming_loop hs search i \<le> length search"
proof (induction hs search i rule: hashIncoming_loop.induct)
  case (1 hs search i)
  then show ?case
    by (subst hashIncoming_loop.simps) auto
qed

lemma hashIncoming_loop_found:
  "hashIncoming_loop hs search i < length search \<Longrightarrow>
   hs (toLowerCase (search ! hashIncoming_loop hs search i)) \<noteq> None"
proof (induction hs search i rule: hashIncoming_loop.induct)
  case (1 hs search i)
  show ?case
  proof (cases "i < length search \<and> hs (toLowerCase (search ! i)) = None")
    case True
    then have eq: "hashIncoming_loop hs search i = hashIncoming_loop hs search (Suc i)"
      by (subst hashIncoming_loop.simps) simp
    show ?thesis
      using "1.IH" "1.prems" True unfolding eq by simp
  next
    case False
    then have "hashIncoming_loop hs search i = i"
      by (subst hashIncoming_loop.simps) auto
    then show ?thesis
      using False "1.prems" by auto
  qed
qed

lemma hashIncoming_loop_first:
  "i \<le> k \<Longrightarrow> k < hashIncoming_loop hs search i \<Longrightarrow> hs (toLowerCase (search ! k)) = None"
proof (induction hs search i rule: hashIncoming_loop.induct)
  case (1 hs search i)
  show ?case
  proof (cases "i < length search \<and> hs (toLowerCase (search ! i)) = None")
    case True
    then have eq: "hashIncoming_loop hs search i = hashIncoming_loop hs search (Suc i)"
      by (subst hashIncoming_loop.simps) simp
    show ?thesis
    proof (cases "k = i")
      case True
      then show ?thesis using \<open>i < length search \<and> hs (toLowerCase (search ! i)) = None\<close> by simp
    next
      case False
      then have "Suc i \<le> k" using "1.prems"(1) by simp
      then show ?thesis
        using "1.IH" "1.prems"(2) True unfolding eq by simp
    qed
  next
    case False
    then have "hashIncoming_loop hs search i = i"
      by (subst hashIncoming_loop.simps) auto
    then show ?thesis
      using "1.prems" by simp
  qed
qed

lemma hashIncoming_none:
  "hashIncoming_loop hs search 0 = length search \<Longrightarrow> hashIncoming L hs search n = Inr (None, n)"
  by (simp add: hashIncoming_def)

lemma hashIncoming_lowercase:
  assumes "hashIncoming_loop hs search 0 < length search"
    and "toLowerCase (search ! hashIncoming_loop hs search 0) = search ! hashIncoming_loop hs search 0"
  shows "\<exists>v. hs (search ! hashIncoming_loop hs search 0) = Some v
           \<and> hashIncoming L hs search n
               = Inr (Some (base64 (sha1 L v) @ ''-'' @ base64 (ID_SCRATCH_BUFFER L n)), Suc n)"
proof -
  from hashIncoming_loop_found [OF assms(1)] assms(2)
  obtain v where v: "hs (search ! hashIncoming_loop hs search 0) = Some v"
    by auto
  then show ?thesis
    using assms(1) by (simp add: hashIncoming_def generateID_def Let_def)
qed

lemma b64_char_alphabet: "b64_char n \<in> set b64_alphabet"
  unfolding b64_char_def by (rule nth_mem) (simp add: b64_alphabet_def)

lemma b64_char_not_hyphen: "b64_char n \<noteq> CHR ''-''"
proof
  assume "b64_char n = CHR ''-''"
  then have "CHR ''-'' \<in> set b64_alphabet"
    using b64_char_alphabet [of n] by simp
  then show False
    by (simp add: b64_alphabet_def)
qed

lemma base64_no_hyphen: "CHR ''-'' \<notin> set (base64 bs)"
  by (induction bs rule: base64.induct) (auto simp: b64_char_not_hyphen dest: sym)

lemma prefix_before_hyphen:
  "takeWhile (\<lambda>c. c \<noteq> CHR ''-'') (base64 d @ ''-'' @ g) = base64 d"
proof -
  have "\<And>c. c \<in> set (base64 d) \<Longrightarrow> c \<noteq> CHR ''-''"
    using base64_no_hyphen [of d] by auto
  then have "takeWhile (\<lambda>c. c \<noteq> CHR ''-'') (base64 d @ ''-'' @ g)
             = base64 d @ takeWhile (\<lambda>c. c \<noteq> CHR ''-'') (''-'' @ g)"
    by (rule takeWhile_append2)
  then show ?thesis by simp
qed


text \<open>
  Claim C6 at the candidate \<open>Request-Id\<close>, on a request that carries \<open>request-id: abc\<close>. The
  loop of \<open>hashIncoming\<close> tests the lower-cased candidate and stops at index 0, but the value
  is then read under the candidate as configured, \<open>headers['Request-Id']\<close>, which is
  \<open>undefined\<close>: \<open>update\<close> throws, and the constructor with it. No identifier is derived
  from the SHA-1 of \<open>abc\<close>.
\<close>

theorem C6_candidate_not_lowercase:
  "hashIncoming_loop [''request-id'' \<mapsto> ''abc''] [''Request-Id''] 0 = 0
   \<and> [''request-id'' \<mapsto> ''abc''] ''Request-Id'' = None
   \<and> (Impl_constructor L \<lparr>isExternal = True, requestIDHeaders = Some [''Request-Id''], opts_maxBodySize = m\<rparr>
        \<lparr>headers = [''request-id'' \<mapsto> ''abc''], url = u\<rparr> n
         :: exn + ('v, 'u, 'a, 'd) request_state)
      = Inl TypeError"
  by (simp add: Impl_constructor_def hashIncoming_def hashIncoming_loop.simps search_list_def
        toLowerCase_def lower_char_def)

subsection \<open>\<open>pipe\<close>\<close>

text \<open>
  Claim C8 at a call \<open>kreq.pipe(d, ...)\<close>. The arrow function passes \<open>arguments\<close> of the
  getter, which is empty, so \<open>pipe\<close> of the incoming message is applied to no argument and
  the destination \<open>d\<close> is dropped. The call does disable the body first, as a read of
  \<open>raw\<close> does.
\<close>

theorem C8_pipe_drops_destination:
  "req_pipe_calls (KnorkRequest_pipe (d # ds) st) = req_pipe_calls st @ [PipeApply []]
   \<and> impl_getBody (KnorkRequest_pipe (d # ds) st) = CallGetDisabledBody raw_accessed
   \<and> impl_getBody (KnorkRequest_pipe (d # ds) st) = impl_getBody (KnorkRequest_raw st)"
  by (simp add: KnorkRequest_pipe_def pipe_arrow_def KnorkRequest_raw_def disableBody_def Let_def)


subsection \<open>The size ceiling\<close>

text \<open>
  Claim C2. Take a request whose body is being collected: after some call sequence the
  collecting function has been called, its promise is pending and the source has not
  ended. If the chunks \<open>cs\<close> that the source then delivers reach the configured
  \<open>maxBodySize\<close> with the \<open>k\<close>-th chunk, then whatever happens after them the promise is
  rejected with the error of status code 413, \<open>reject\<close> of the promise has been called once
  and \<open>resolve\<close> never, \<open>req.unpipe\<close> has been called before \<open>reject\<close>, the \<open>Writable\<close> is
  no longer piped and its \<open>_write\<close> does nothing, and the source has delivered at most
  \<open>k\<close> chunks to it. (The \<open>write\<close> handler compares with \<open>impl.maxBodySize\<close>, which is
  \<open>undefined\<close>, so it rejects at the first chunk; this is within the claim.)
\<close>

theorem C2_payload_too_large:
  assumes "Impl_constructor L srv r n = Inr st0"
    and "triggered (run L as st0)"
    and "promise (run L as st0) = Pending"
    and "\<not> req_ended (run L as st0)"
    and "0 < k" and "k \<le> length cs"
    and "opts_maxBodySize srv \<le> sum_list (map length (take k cs))"
  shows "promise (run L (as @ map Chunk cs @ bs) st0) = Rejected payload_too_large
       \<and> statusCode payload_too_large = Some 413
       \<and> events (run L (as @ map Chunk cs @ bs) st0) = [Unpipe, CallReject payload_too_large]
       \<and> \<not> req_piped (run L (as @ map Chunk cs @ bs) st0)
       \<and> \<not> write_installed (run L (as @ map Chunk cs @ bs) st0)
       \<and> writes_delivered (run L (as @ map Chunk cs @ bs) st0) \<le> k"
proof -
  have sh: "reachable_shape L (run L as st0)"
    using assms(1) by (rule reachable_shape_constructed)
  have c: "collecting (run L as st0)"
    using sh assms(2,3) by (rule collecting_iff)
  have m: "maxBodySize (run L as st0) = None"
    using sh by (simp add: reachable_shape_def)
  have ne: "cs \<noteq> []"
    using assms(5,6) by auto
  have "too_large (run L (map Chunk cs @ bs) (run L as st0))"
    using c m assms(4) ne by (rule too_large_after_chunks)
  then have t: "too_large (run L (as @ map Chunk cs @ bs) st0)"
    by simp
  show ?thesis
    using t assms(5) by (simp add: too_large_def payload_too_large_def)
qed

theorem C2_payload_too_large_witness:
  "triggered (run sample_lib [GetBody, CallBody]
      (new_Impl sample_request None 0 :: (bool, nat \<times> string, nat, nat) request_state))
   \<and> (0::nat) < 2 \<and> 2 \<le> length [[1, 2], [3, 4 :: byte]]
   \<and> opts_maxBodySize (sample_server\<lparr>opts_maxBodySize := 3\<rparr>)
        \<le> sum_list (map length (take 2 [[1, 2], [3, 4 :: byte]]))
   \<and> promise (run sample_lib ([GetBody, CallBody] @ map Chunk [[1, 2], [3, 4]] @ [End])
        (new_Impl sample_request None 0 :: (bool, nat \<times> string, nat, nat) request_state))
      = Rejected (JsError ''Request payload is too large.'' (Some 413))"
proof -
  let ?st0 = "new_Impl sample_request None 0 :: (bool, nat \<times> string, nat, nat) request_state"
  have h1: "Impl_constructor sample_lib (sample_server\<lparr>opts_maxBodySize := 3\<rparr>) sample_request 0
            = Inr ?st0"
    by (simp add: Impl_constructor_def sample_server_def sample_request_def or_null_def)
  have h2: "triggered (run sample_lib [GetBody, CallBody] ?st0)"
    by (simp add: run_eval)
  have h3: "promise (run sample_lib [GetBody, CallBody] ?st0) = Pending"
    by (simp add: run_eval)
  have h4: "\<not> req_ended (run sample_lib [GetBody, CallBody] ?st0)"
    by (simp add: run_eval)
  have h5: "(0::nat) < 2" by simp
  have h6: "2 \<le> length [[1, 2], [3, 4 :: byte]]" by simp
  have h7: "opts_maxBodySize (sample_server\<lparr>opts_maxBodySize := 3\<rparr>)
        \<le> sum_list (map length (take 2 [[1, 2], [3, 4 :: byte]]))" by simp
  from C2_payload_too_large [OF h1 h2 h3 h4 h5 h6 h7, of "[End]"]
  have "promise (run sample_lib ([GetBody, CallBody] @ map Chunk [[1, 2], [3, 4]] @ [End]) ?st0)
        = Rejected payload_too_large"
    by blast
  then show ?thesis
    using h2 h5 h6 h7 unfolding payload_too_large_def by blast
qed


subsection \<open>Bodies under the ceiling\<close>

text \<open>
  On a newly constructed request, once the collecting function has been obtained and
  called, the first chunk of any size makes the \<open>write\<close> handler reject: no body that
  arrives in one or more chunks reaches the \<open>end\<close> handler.
\<close>

lemma every_chunked_body_rejected:
  fixes L :: "('v, 'u, 'q, 'a) lib" and bs :: "'d action list"
  shows "promise (run L (GetBody # CallBody # map Chunk (c # cs) @ bs) (new_Impl r i n))
         = Rejected payload_too_large"
proof -
  let ?st0 = "new_Impl r i n :: ('v, 'u, 'a, 'd) request_state"
  have u: "untouched ?st0" and g: "impl_getBody ?st0 = CallGetBody"
    and m: "maxBodySize ?st0 = None" and e: "\<not> req_ended ?st0"
    by (simp_all add: untouched_def new_Impl_def)
  have f: "function_held (step L GetBody ?st0)"
    using untouched_GetBody [OF u, where L=L] g by simp
  have c: "collecting (run L [GetBody, CallBody] ?st0)"
    using function_held_CallBody [OF f, where L=L] by simp
  have m': "maxBodySize (run L [GetBody, CallBody] ?st0) = None"
    using m by (simp only: maxBodySize_run)
  have e': "\<not> req_ended (run L [GetBody, CallBody] ?st0)"
    by (simp add: run_eval)
  have "too_large (run L (map Chunk (c # cs) @ bs) (run L [GetBody, CallBody] ?st0))"
    using c m' e' by (rule too_large_after_chunks) simp
  then show ?thesis
    by (simp add: too_large_def)
qed


text \<open>
  Claim C3 at a server configured with \<open>maxBodySize = 1000\<close> and a request whose body is
  the four bytes of the JSON text \<open>true\<close>, delivered as one chunk. The \<open>body\<close> accessor
  returns the collecting function; calling it starts the collection; the chunk, far under
  the ceiling, makes the \<open>write\<close> handler reject with status code 413, because
  \<open>4 < undefined\<close> is false. The promise does not resolve to the parsed value.
\<close>

theorem C3_small_json_body_rejected:
  "Impl_constructor sample_lib sample_server sample_request 0
     = Inr (new_Impl sample_request None 0 :: (bool, nat \<times> string, nat, nat) request_state)
   \<and> length [0x74, 0x72, 0x75, 0x65 :: byte] < opts_maxBodySize sample_server
   \<and> JSON_parse sample_lib [0x74, 0x72, 0x75, 0x65] = Inr True
   \<and> fst (KnorkRequest_body
        (new_Impl sample_request None 0 :: (bool, nat \<times> string, nat, nat) request_state))
      = FunctionGetBody
   \<and> promise (run sample_lib [GetBody, CallBody, Chunk [0x74, 0x72, 0x75, 0x65], End]
        (new_Impl sample_request None 0 :: (bool, nat \<times> string, nat, nat) request_state))
      = Rejected (JsError ''Request payload is too large.'' (Some 413))"
  by (simp add: Impl_constructor_def sample_server_def sample_request_def or_null_def
        sample_lib_def sample_JSON_parse_def run_eval payload_too_large_def)

text \<open>
  Claim C5 at the same server and the body \<open>nope\<close>, four bytes that are not JSON: the
  promise is rejected by the \<open>write\<close> handler with status code 413 and its own message,
  not with status code 400 and the message of the parse error. The \<open>end\<close> handler itself
  does what the claim says (lemma \<open>end_handler_malformed\<close>); it is not reached.
\<close>

theorem C5_malformed_body_rejected_413:
  "Impl_constructor sample_lib sample_server sample_request 0
     = Inr (new_Impl sample_request None 0 :: (bool, nat \<times> string, nat, nat) request_state)
   \<and> length [0x6E, 0x6F, 0x70, 0x65 :: byte] < opts_maxBodySize sample_server
   \<and> JSON_parse sample_lib [0x6E, 0x6F, 0x70, 0x65] = Inl (JsError ''Unexpected token'' None)
   \<and> promise (run sample_lib [GetBody, CallBody, Chunk [0x6E, 0x6F, 0x70, 0x65], End]
        (new_Impl sample_request None 0 :: (bool, nat \<times> string, nat, nat) request_state))
      = Rejected (JsError ''Request payload is too large.'' (Some 413))"
  by (simp add: Impl_constructor_def sample_server_def sample_request_def or_null_def
        sample_lib_def sample_JSON_parse_def run_eval payload_too_large_def)

subsection \<open>\<open>raw\<close> and \<open>pipe\<close> after \<open>body\<close>\<close>

text \<open>
  Claim C1 as written fails. After the \<open>body\<close> accessor has been read and the collecting
  function called, a read of \<open>raw\<close> (or a call of \<open>pipe\<close>) followed by a turn of the event
  loop leaves the promise pending and the \<open>Writable\<close> piped; neither \<open>reject\<close> nor
  \<open>req.unpipe\<close> has been called.
\<close>

theorem C1_raw_after_body_counterexample:
  "triggered (run sample_lib [GetBody, CallBody]
      (new_Impl sample_request None 0 :: (bool, nat \<times> string, nat, nat) request_state))
   \<and> promise (run sample_lib [GetBody, CallBody]
      (new_Impl sample_request None 0 :: (bool, nat \<times> string, nat, nat) request_state)) = Pending
   \<and> promise (run sample_lib [GetBody, CallBody, GetRaw, Immediates]
      (new_Impl sample_request None 0 :: (bool, nat \<times> string, nat, nat) request_state)) = Pending
   \<and> req_piped (run sample_lib [GetBody, CallBody, GetRaw, Immediates]
      (new_Impl sample_request None 0 :: (bool, nat \<times> string, nat, nat) request_state))
   \<and> events (run sample_lib [GetBody, CallBody, GetRaw, Immediates]
      (new_Impl sample_request None 0 :: (bool, nat \<times> string, nat, nat) request_state)) = []
   \<and> promise (run sample_lib [GetBody, CallBody, CallPipe [7], Immediates]
      (new_Impl sample_request None 0 :: (bool, nat \<times> string, nat, nat) request_state)) = Pending
   \<and> req_piped (run sample_lib [GetBody, CallBody, CallPipe [7], Immediates]
      (new_Impl sample_request None 0 :: (bool, nat \<times> string, nat, nat) request_state))"
  by (simp add: run_eval)

text \<open>
  Claim C1, as amended. Take any call sequence after which the collecting function has
  been called and its promise is pending. A read of \<open>raw\<close> or a call of \<open>pipe\<close> then leaves
  the promise pending, the \<open>Writable\<close> piped with its \<open>write\<close> handler in place, and the
  \<open>body\<close> accessor still returns the collecting function. Whatever follows, the promise is
  never rejected with the error of \<open>raw\<close>: it stays pending, or the \<open>write\<close> handler rejects
  it with status code 413, or the \<open>end\<close> handler settles it with the outcome of parsing.
\<close>

theorem C1_raw_after_body:
  assumes "Impl_constructor L srv r n = Inr st0"
    and "triggered (run L as st0)"
    and "promise (run L as st0) = Pending"
  shows "promise (KnorkRequest_raw (run L as st0)) = Pending
       \<and> req_piped (KnorkRequest_raw (run L as st0))
       \<and> write_installed (KnorkRequest_raw (run L as st0))
       \<and> fst (KnorkRequest_body (KnorkRequest_raw (run L as st0))) = FunctionGetBody
       \<and> promise (KnorkRequest_pipe ds (run L as st0)) = Pending
       \<and> req_piped (KnorkRequest_pipe ds (run L as st0))
       \<and> write_installed (KnorkRequest_pipe ds (run L as st0))
       \<and> fst (KnorkRequest_body (KnorkRequest_pipe ds (run L as st0))) = FunctionGetBody
       \<and> promise (run L (as @ bs) st0) \<noteq> Rejected raw_accessed
       \<and> (promise (run L (as @ bs) st0) = Pending
            \<or> promise (run L (as @ bs) st0) = Rejected payload_too_large
            \<or> promise (run L (as @ bs) st0)
                = (case JSON_parse L [] of
                     Inr obj \<Rightarrow> Resolved obj
                   | Inl err \<Rightarrow> Rejected (assign_statusCode 400 err)))"
proof -
  have sh: "reachable_shape L (run L as st0)"
    using assms(1) by (rule reachable_shape_constructed)
  have c: "collecting (run L as st0)"
    using sh assms(2,3) by (rule collecting_iff)
  have raw: "promise (KnorkRequest_raw (run L as st0)) = Pending
       \<and> req_piped (KnorkRequest_raw (run L as st0))
       \<and> write_installed (KnorkRequest_raw (run L as st0))
       \<and> fst (KnorkRequest_body (KnorkRequest_raw (run L as st0))) = FunctionGetBody"
    using c by (simp add: collecting_def raw_defs body_defs)
  have pipe: "promise (KnorkRequest_pipe ds (run L as st0)) = Pending
       \<and> req_piped (KnorkRequest_pipe ds (run L as st0))
       \<and> write_installed (KnorkRequest_pipe ds (run L as st0))
       \<and> fst (KnorkRequest_body (KnorkRequest_pipe ds (run L as st0))) = FunctionGetBody"
    using c by (simp add: collecting_def raw_defs body_defs Let_def)
  have sh': "reachable_shape L (run L (as @ bs) st0)"
    using assms(1) by (rule reachable_shape_constructed)
  note cases = settled_cases [OF sh']
  have ne: "promise (run L (as @ bs) st0) \<noteq> Rejected raw_accessed"
    using cases not_raw_accessed by (auto split: sum.splits)
  show ?thesis
    using raw pipe ne cases by blast
qed

theorem C1_raw_after_body_witness:
  "triggered (run sample_lib [GetBody, CallBody]
      (new_Impl sample_request None 0 :: (bool, nat \<times> string, nat, nat) request_state))
   \<and> promise (run sample_lib [GetBody, CallBody]
      (new_Impl sample_request None 0 :: (bool, nat \<times> string, nat, nat) request_state)) = Pending
   \<and> req_piped (KnorkRequest_raw (run sample_lib [GetBody, CallBody]
      (new_Impl sample_request None 0 :: (bool, nat \<times> string, nat, nat) request_state)))
   \<and> promise (run sample_lib ([GetBody, CallBody] @ [GetRaw, End])
      (new_Impl sample_request None 0 :: (bool, nat \<times> string, nat, nat) request_state))
      \<noteq> Rejected raw_accessed"
proof -
  let ?st0 = "new_Impl sample_request None 0 :: (bool, nat \<times> string, nat, nat) request_state"
  have h1: "Impl_constructor sample_lib sample_server sample_request 0 = Inr ?st0"
    by (simp add: Impl_constructor_def sample_server_def sample_request_def or_null_def)
  have h2: "triggered (run sample_lib [GetBody, CallBody] ?st0)"
    by (simp add: run_eval)
  have h3: "promise (run sample_lib [GetBody, CallBody] ?st0) = Pending"
    by (simp add: run_eval)
  from C1_raw_after_body [OF h1 h2 h3, of "[]" "[GetRaw, End]"]
  show ?thesis using h2 h3 by blast
qed


subsection \<open>\<open>body\<close> after \<open>raw\<close> or \<open>pipe\<close>\<close>




subsection \<open>Memoization\<close>

text \<open>
  Claim C9. In every state a request can reach, \<open>uuid.v4\<close>, \<open>url.parse\<close> and \<open>accepts\<close> have
  each run at most once for it. Once \<open>id\<close>, \<open>urlObject\<close> or \<open>accept\<close> has been read, then
  after any further calls and events a read of the same accessor returns the value of
  the first read and leaves the state as it is, so nothing is computed again; \<open>query\<close> is
  the \<open>query\<close> property of that same URL object, whether it is read first or later.
\<close>

theorem C9_memoized_once:
  assumes "Impl_constructor L srv r n = Inr st0"
  shows "uuid_calls (run L as st0) \<le> Suc n
       \<and> url_parse_calls (run L as st0) \<le> 1
       \<and> accepts_calls (run L as st0) \<le> 1
       \<and> KnorkRequest_id L (run L bs (snd (KnorkRequest_id L (run L as st0))))
           = (fst (KnorkRequest_id L (run L as st0)),
              run L bs (snd (KnorkRequest_id L (run L as st0))))
       \<and> uuid_calls (run L bs (snd (KnorkRequest_id L (run L as st0))))
           = uuid_calls (snd (KnorkRequest_id L (run L as st0)))
       \<and> KnorkRequest_urlObject L (run L bs (snd (KnorkRequest_urlObject L (run L as st0))))
           = (fst (KnorkRequest_urlObject L (run L as st0)),
              run L bs (snd (KnorkRequest_urlObject L (run L as st0))))
       \<and> KnorkRequest_query L (run L bs (snd (KnorkRequest_urlObject L (run L as st0))))
           = (query_of L (fst (KnorkRequest_urlObject L (run L as st0))),
              run L bs (snd (KnorkRequest_urlObject L (run L as st0))))
       \<and> KnorkRequest_query L (run L as st0)
           = (query_of L (fst (KnorkRequest_urlObject L (run L as st0))),
              snd (KnorkRequest_urlObject L (run L as st0)))
       \<and> url_parse_calls (run L bs (snd (KnorkRequest_urlObject L (run L as st0))))
           = url_parse_calls (snd (KnorkRequest_urlObject L (run L as st0)))
       \<and> KnorkRequest_accept L (run L bs (snd (KnorkRequest_accept L (run L as st0))))
           = (fst (KnorkRequest_accept L (run L as st0)),
              run L bs (snd (KnorkRequest_accept L (run L as st0))))
       \<and> accepts_calls (run L bs (snd (KnorkRequest_accept L (run L as st0))))
           = accepts_calls (snd (KnorkRequest_accept L (run L as st0)))"
proof -
  let ?s = "run L as st0"
  have "computed_once n ?s"
    using assms by (simp add: computed_once_constructed computed_once_run)
  then have counts: "uuid_calls ?s \<le> Suc n \<and> url_parse_calls ?s \<le> 1 \<and> accepts_calls ?s \<le> 1"
    by (auto simp: computed_once_def)
  have i1: "or_null (impl_id (snd (getID L ?s))) = Some (fst (getID L ?s))"
    using getID_sets by blast
  note i2 = id_set_run [OF i1, of L bs]
  have "or_null (impl_id (run L bs (snd (getID L ?s)))) = Some (fst (getID L ?s))"
    using i1 i2 by simp
  then have i3: "getID L (run L bs (snd (getID L ?s)))
                 = (fst (getID L ?s), run L bs (snd (getID L ?s)))"
    by (rule getID_cached)
  have u1: "impl_url (snd (getURL L ?s)) = Some (fst (getURL L ?s))"
    by (rule getURL_sets)
  note u2 = url_set_run [OF u1, of L bs]
  have u3: "getURL L (run L bs (snd (getURL L ?s)))
            = (fst (getURL L ?s), run L bs (snd (getURL L ?s)))"
    using u2 by (simp add: getURL_cached)
  have a1: "impl_accept (snd (getAccepts L ?s)) = Some (fst (getAccepts L ?s))"
    by (rule getAccepts_sets)
  note a2 = accept_set_run [OF a1, of L bs]
  have a3: "getAccepts L (run L bs (snd (getAccepts L ?s)))
            = (fst (getAccepts L ?s), run L bs (snd (getAccepts L ?s)))"
    using a2 by (simp add: getAccepts_cached)
  have q: "KnorkRequest_query L ?s = (query_of L (fst (getURL L ?s)), snd (getURL L ?s))"
    by (simp add: KnorkRequest_query_def split: prod.splits)
  have q3: "KnorkRequest_query L (run L bs (snd (getURL L ?s)))
            = (query_of L (fst (getURL L ?s)), run L bs (snd (getURL L ?s)))"
    using u3 by (simp add: KnorkRequest_query_def)
  show ?thesis
    unfolding KnorkRequest_id_def KnorkRequest_urlObject_def KnorkRequest_accept_def
    using counts i2 i3 u2 u3 a2 a3 q q3 by simp
qed

theorem C9_memoized_once_witness:
  "fst (KnorkRequest_urlObject sample_lib
     (run sample_lib [GetRaw, GetQuery, GetId]
        (snd (KnorkRequest_urlObject sample_lib
           (run sample_lib [GetAccept]
              (new_Impl sample_request None 0 :: (bool, nat \<times> string, nat, nat) request_state))))))
   = (0, ''/items?page=2'')
   \<and> url_parse_calls (run sample_lib [GetUrlObject, GetQuery, GetUrlObject]
        (new_Impl sample_request None 0 :: (bool, nat \<times> string, nat, nat) request_state)) = 1"
proof -
  let ?st0 = "new_Impl sample_request None 0 :: (bool, nat \<times> string, nat, nat) request_state"
  have h1: "Impl_constructor sample_lib sample_server sample_request 0 = Inr ?st0"
    by (simp add: Impl_constructor_def sample_server_def sample_request_def or_null_def)
  have first: "fst (KnorkRequest_urlObject sample_lib (run sample_lib [GetAccept] ?st0))
               = (0, ''/items?page=2'')"
    by (simp add: run_eval sample_lib_def sample_request_def)
  have calls: "url_parse_calls (run sample_lib [GetUrlObject, GetQuery, GetUrlObject] ?st0) = 1"
    by (simp add: run_eval sample_lib_def sample_request_def)
  from C9_memoized_once [OF h1, of "[GetAccept]" "[GetRaw, GetQuery, GetId]"]
  have "KnorkRequest_urlObject sample_lib
          (run sample_lib [GetRaw, GetQuery, GetId]
             (snd (KnorkRequest_urlObject sample_lib (run sample_lib [GetAccept] ?st0))))
        = (fst (KnorkRequest_urlObject sample_lib (run sample_lib [GetAccept] ?st0)),
           run sample_lib [GetRaw, GetQuery, GetId]
             (snd (KnorkRequest_urlObject sample_lib (run sample_lib [GetAccept] ?st0))))"
    by blast
  then show ?thesis
    using first calls by simp
qed


end
